theory Spec2Isabelle
  imports Complex_Main
begin

section \<open>Values, errors and responses\<close>

text \<open>
  The server receives JSON request bodies and talks to a document store through an
  object mapper. A field of a request body is any JSON value; the handlers test it for
  truthiness and call string methods on it, so the model keeps the kinds of value apart.
  \<open>JNum\<close> carries integer numbers; \<open>JObj\<close> stands for objects and arrays, which are
  truthy and have no \<open>trim\<close> method.
\<close>

datatype jsval = JUndefined | JNull | JBool bool | JNum int | JStr string | JObj

fun truthy :: "jsval \<Rightarrow> bool" where
  "truthy JUndefined = False"
| "truthy JNull = False"
| "truthy (JBool b) = b"
| "truthy (JNum n) = (n \<noteq> 0)"
| "truthy (JStr s) = (s \<noteq> [])"
| "truthy JObj = True"

text \<open>A request body is an object: field names with their values (each name listed once),
  absent fields undefined.\<close>

type_synonym body = "(string \<times> jsval) list"

definition field :: "body \<Rightarrow> string \<Rightarrow> jsval" where
  "field b k = (case map_of b k of None \<Rightarrow> JUndefined | Some v \<Rightarrow> v)"

text \<open>
  A thrown error carries an optional numeric \<open>code\<close>, an optional \<open>keyPattern\<close> (the
  index fields of a duplicate-key error, each with its direction) and a message.
\<close>

record error =
  code :: "int option"
  keyPattern :: "(string \<times> int) list option"
  message :: string

definition mkError :: "string \<Rightarrow> error" where
  "mkError msg = \<lparr>code = None, keyPattern = None, message = msg\<rparr>"

text \<open>\<open>error.keyPattern && error.keyPattern.f\<close>: the pattern is there and names \<open>f\<close> with a
  truthy number.\<close>

definition hasKey :: "error \<Rightarrow> string \<Rightarrow> bool" where
  "hasKey e f =
     (case keyPattern e of
        None \<Rightarrow> False
      | Some kp \<Rightarrow> (case map_of kp f of None \<Rightarrow> False | Some v \<Rightarrow> v \<noteq> 0))"

text \<open>\<open>s.includes(p)\<close>: \<open>p\<close> occurs in \<open>s\<close> as a contiguous run.\<close>

fun str_includes :: "string \<Rightarrow> string \<Rightarrow> bool" where
  "str_includes [] p = (p = [])"
| "str_includes (c # cs) p = (take (length p) (c # cs) = p \<or> str_includes cs p)"

text \<open>String methods, on ASCII: \<open>trim\<close> strips white space at both ends, \<open>toLowerCase\<close>
  maps \<open>A\<close> to \<open>Z\<close> to lower case.\<close>

definition isSpace :: "char \<Rightarrow> bool" where
  "isSpace c = (of_char c \<in> {9, 10, 11, 12, 13, 32 :: nat})"

definition trim :: "string \<Rightarrow> string" where
  "trim s = rev (dropWhile isSpace (rev (dropWhile isSpace s)))"

definition toLowerCase :: "string \<Rightarrow> string" where
  "toLowerCase s =
     map (\<lambda>c. if 65 \<le> (of_char c :: nat) \<and> (of_char c :: nat) \<le> 90
               then char_of (of_char c + 32 :: nat) else c) s"

text \<open>\<open>v.trim()\<close> on a value that is not a string throws a TypeError naming the variable.\<close>

fun trimOf :: "string \<Rightarrow> jsval \<Rightarrow> error + string" where
  "trimOf var (JStr s) = Inr (trim s)"
| "trimOf var v = Inl (mkError (var @ ''.trim is not a function''))"

text \<open>A student document: the storage key, the allocated identifier and the fields of the
  schema. \<open>enrollmentDate\<close> keeps the value the date was built from, \<open>status\<close> the value
  that was given or the default.\<close>

record student =
  oid :: nat
  studentId :: int
  name :: string
  email :: string
  course :: string
  enrollmentDate :: jsval
  status :: jsval

record counter =
  counter_id :: string
  sequence_value :: int

record courseDoc =
  courseName :: string
  description :: string
  duration :: int
  courseStatus :: string

datatype payload =
    ErrorBody string
  | StudentBody student
  | MessageBody string
  | StatsBody nat nat nat int

record response =
  statusCode :: nat
  json :: payload

section \<open>The store\<close>

text \<open>
  The state of the world is the student and counter collections, the course collection,
  the next storage key the object mapper will mint, and a script of the outcomes of the
  awaited store calls to come: each awaited call takes the next entry; \<open>Some e\<close> makes
  that call throw \<open>e\<close> with no effect on the collections, \<open>None\<close> (or an exhausted
  script) lets it proceed. Uniqueness conflicts reported by an index of the database,
  validation and cast failures and an unreachable store all arrive that way. Storage keys
  are the keys the object mapper has cast from the request; the time stamps the store
  keeps on each document are left out.
\<close>

record world =
  students :: "student list"
  counters :: "counter list"
  courses :: "courseDoc list"
  nextOid :: nat
  faults :: "error option list"

definition await :: "world \<Rightarrow> error option \<times> world" where
  "await w = (case faults w of [] \<Rightarrow> (None, w) | f # fs \<Rightarrow> (f, w\<lparr>faults := fs\<rparr>))"

text \<open>Update or delete the first document a filter matches; the document (after the
  update, or as deleted) is returned, \<open>None\<close> when nothing matches.\<close>

fun updateFirst :: "('a \<Rightarrow> bool) \<Rightarrow> ('a \<Rightarrow> 'a) \<Rightarrow> 'a list \<Rightarrow> 'a option \<times> 'a list" where
  "updateFirst p f [] = (None, [])"
| "updateFirst p f (x # xs) =
     (if p x then (Some (f x), f x # xs)
      else (case updateFirst p f xs of (r, ys) \<Rightarrow> (r, x # ys)))"

fun deleteFirst :: "('a \<Rightarrow> bool) \<Rightarrow> 'a list \<Rightarrow> 'a option \<times> 'a list" where
  "deleteFirst p [] = (None, [])"
| "deleteFirst p (x # xs) =
     (if p x then (Some x, xs)
      else (case deleteFirst p xs of (r, ys) \<Rightarrow> (r, x # ys)))"

text \<open>The upsert with \<open>$setOnInsert\<close>: a matching document is left as it is, and a new one
  with the given value is inserted when none matches.\<close>

definition upsertSetOnInsert :: "string \<Rightarrow> int \<Rightarrow> counter list \<Rightarrow> counter list" where
  "upsertSetOnInsert n v cs =
     (case find (\<lambda>c. counter_id c = n) cs of
        None \<Rightarrow> cs @ [\<lparr>counter_id = n, sequence_value = v\<rparr>]
      | Some c \<Rightarrow> cs)"

section \<open>Numbers\<close>

text \<open>
  The counter value is a Number of the schema: a double-precision floating-point number.
  The values it takes are integers, so the model keeps them as integers and rounds each
  sum as the machine does. \<open>toNumber\<close> is the nearest integer a Number can hold, a tie
  going to the even significand: integers of magnitude up to \<open>2 ^ 53\<close> are held as
  they are, larger ones to 53 significant bits. \<open>bitLength\<close> counts the binary digits of
  a positive integer; \<open>numInc\<close> is the increment by one.
\<close>

function bitLength :: "int \<Rightarrow> nat" where
  "bitLength a = (if a \<le> 0 then 0 else Suc (bitLength (a div 2)))"
  by pat_completeness auto
termination
  by (relation "measure nat") auto

definition toNumber :: "int \<Rightarrow> int" where
  "toNumber x =
     (if \<bar>x\<bar> \<le> 2 ^ 53 then x
      else (let a = \<bar>x\<bar>;
                ulp = 2 ^ (bitLength a - 53);
                q = a div ulp;
                r = a mod ulp;
                m = (if 2 * r < ulp \<or> (2 * r = ulp \<and> even q) then q else q + 1)
            in sgn x * (m * ulp)))"

definition numInc :: "int \<Rightarrow> int" where
  "numInc v = toNumber (v + 1)"

section \<open>The sequence counter\<close>

definition INITIAL_ID_VALUE :: int where
  "INITIAL_ID_VALUE = 0"

text \<open>
  \<open>getNextSequenceValue\<close>: two awaited calls, the upsert that initialises the counter and
  the \<open>$inc\<close> by one that returns the updated document; the sum is a Number. Reading
  \<open>sequence_value\<close> of a null result throws.
\<close>

definition getNextSequenceValue :: "string \<Rightarrow> world \<Rightarrow> (error + int) \<times> world" where
  "getNextSequenceValue sequenceName w =
     (case await w of
        (Some e, w1) \<Rightarrow> (Inl e, w1)
      | (None, w1) \<Rightarrow>
          (let w2 = w1\<lparr>counters := upsertSetOnInsert sequenceName INITIAL_ID_VALUE (counters w1)\<rparr>
           in case await w2 of
                (Some e, w3) \<Rightarrow> (Inl e, w3)
              | (None, w3) \<Rightarrow>
                  (case updateFirst (\<lambda>c. counter_id c = sequenceName)
                          (\<lambda>c. c\<lparr>sequence_value := numInc (sequence_value c)\<rparr>) (counters w3) of
                     (None, cs) \<Rightarrow>
                       (Inl (mkError ''Cannot read properties of null (reading 'sequence_value')''), w3)
                   | (Some updatedCounter, cs) \<Rightarrow>
                       (Inr (sequence_value updatedCounter), w3\<lparr>counters := cs\<rparr>))))"

section \<open>Creating a student\<close>

definition MAX_RETRIES :: nat where
  "MAX_RETRIES = 5"

text \<open>\<open>new Student({...})\<close>: the three \<open>trim\<close> calls run in the order of the object literal.\<close>

definition newStudent :: "nat \<Rightarrow> int \<Rightarrow> body \<Rightarrow> error + student" where
  "newStudent key generatedStudentId b =
     (case trimOf ''name'' (field b ''name'') of
        Inl e \<Rightarrow> Inl e
      | Inr n \<Rightarrow>
          (case trimOf ''email'' (field b ''email'') of
             Inl e \<Rightarrow> Inl e
           | Inr m \<Rightarrow>
               (case trimOf ''course'' (field b ''course'') of
                  Inl e \<Rightarrow> Inl e
                | Inr c \<Rightarrow>
                    Inr \<lparr>oid = key, studentId = generatedStudentId, name = n,
                         email = toLowerCase m, course = c,
                         enrollmentDate = field b ''enrollmentDate'',
                         status = (if truthy (field b ''status'') then field b ''status''
                                   else JStr ''Active'')\<rparr>)))"

text \<open>The body of the \<open>try\<close> inside the loop: allocate an identifier, build the document,
  save it.\<close>

definition tryCreate :: "body \<Rightarrow> world \<Rightarrow> (error + student) \<times> world" where
  "tryCreate b w =
     (case getNextSequenceValue ''studentId'' w of
        (Inl e, w1) \<Rightarrow> (Inl e, w1)
      | (Inr generatedStudentId, w1) \<Rightarrow>
          (case newStudent (nextOid w1) generatedStudentId b of
             Inl e \<Rightarrow> (Inl e, w1)
           | Inr st \<Rightarrow>
               (case await (w1\<lparr>nextOid := Suc (nextOid w1)\<rparr>) of
                  (Some e, w2) \<Rightarrow> (Inl e, w2)
                | (None, w2) \<Rightarrow> (Inr st, w2\<lparr>students := students w2 @ [st]\<rparr>))))"

definition retryFailure :: string where
  "retryFailure = ''Failed to generate a unique Student ID after multiple retries.''"

definition duplicateEmailFailure :: string where
  "duplicateEmailFailure =
     ''A duplicate email was found by an unexpected database index. Please restart the application to clear the index.''"

text \<open>The \<open>catch\<close> inside the loop: \<open>Some e\<close> is thrown on, \<open>None\<close> goes to the next
  iteration.\<close>

definition onAttemptError :: "nat \<Rightarrow> error \<Rightarrow> error option" where
  "onAttemptError attempt e =
     (if code e = Some 11000 then
        (if hasKey e ''studentId'' then
           (if attempt = MAX_RETRIES - 1 then Some (mkError retryFailure) else None)
         else if hasKey e ''email'' then Some (mkError duplicateEmailFailure)
         else None)
      else Some e)"

function createLoop :: "nat \<Rightarrow> body \<Rightarrow> world \<Rightarrow> (error + response) \<times> world" where
  "createLoop attempt b w =
     (if attempt < MAX_RETRIES then
        (case tryCreate b w of
           (Inr st, w') \<Rightarrow> (Inr \<lparr>statusCode = 201, json = StudentBody st\<rparr>, w')
         | (Inl e, w') \<Rightarrow>
             (case onAttemptError attempt e of
                Some e' \<Rightarrow> (Inl e', w')
              | None \<Rightarrow> createLoop (attempt + 1) b w'))
      else (Inr \<lparr>statusCode = 500,
                 json = ErrorBody ''Internal server error during student creation.''\<rparr>, w))"
  by pat_completeness auto
termination
  by (relation "measure (\<lambda>(attempt, b, w). MAX_RETRIES - attempt)") auto

definition requiredMissing :: "body \<Rightarrow> bool" where
  "requiredMissing b =
     (\<not> truthy (field b ''name'') \<or> \<not> truthy (field b ''email'')
      \<or> \<not> truthy (field b ''course'') \<or> \<not> truthy (field b ''enrollmentDate''))"

definition createCatch :: "error \<Rightarrow> response" where
  "createCatch e =
     (if str_includes (message e) ''A duplicate email was found'' then
        \<lparr>statusCode = 400, json = ErrorBody (message e)\<rparr>
      else if str_includes (message e) ''unique Student ID'' then
        \<lparr>statusCode = 500, json = ErrorBody (message e)\<rparr>
      else \<lparr>statusCode = 400, json = ErrorBody (message e)\<rparr>)"

definition createStudent :: "body \<Rightarrow> world \<Rightarrow> response \<times> world" where
  "createStudent b w =
     (if requiredMissing b then
        (\<lparr>statusCode = 400,
          json = ErrorBody ''Name, email, course, and enrollment date are required''\<rparr>, w)
      else
        (case createLoop 0 b w of
           (Inr r, w') \<Rightarrow> (r, w')
         | (Inl e, w') \<Rightarrow> (createCatch e, w')))"

section \<open>Updating and deleting a student\<close>

definition updateData :: "body \<Rightarrow> error + (student \<Rightarrow> student)" where
  "updateData b =
     (case trimOf ''name'' (field b ''name'') of
        Inl e \<Rightarrow> Inl e
      | Inr n \<Rightarrow>
          (case trimOf ''email'' (field b ''email'') of
             Inl e \<Rightarrow> Inl e
           | Inr m \<Rightarrow>
               (case trimOf ''course'' (field b ''course'') of
                  Inl e \<Rightarrow> Inl e
                | Inr c \<Rightarrow>
                    Inr (\<lambda>s. s\<lparr>name := n, email := toLowerCase m, course := c,
                               enrollmentDate := field b ''enrollmentDate'',
                               status := (if truthy (field b ''status'') then field b ''status''
                                          else JStr ''Active'')\<rparr>))))"

definition updateStudent :: "nat \<Rightarrow> body \<Rightarrow> world \<Rightarrow> response \<times> world" where
  "updateStudent key b w =
     (if requiredMissing b then
        (\<lparr>statusCode = 400,
          json = ErrorBody ''Name, email, course, and enrollment date are required''\<rparr>, w)
      else
        (case updateData b of
           Inl e \<Rightarrow> (\<lparr>statusCode = 400, json = ErrorBody (message e)\<rparr>, w)
         | Inr upd \<Rightarrow>
             (case await w of
                (Some e, w1) \<Rightarrow> (\<lparr>statusCode = 400, json = ErrorBody (message e)\<rparr>, w1)
              | (None, w1) \<Rightarrow>
                  (case updateFirst (\<lambda>s. oid s = key) upd (students w1) of
                     (None, ss) \<Rightarrow>
                       (\<lparr>statusCode = 404, json = ErrorBody ''Student not found''\<rparr>, w1)
                   | (Some st, ss) \<Rightarrow>
                       (\<lparr>statusCode = 200, json = StudentBody st\<rparr>, w1\<lparr>students := ss\<rparr>)))))"

definition resetCounter :: "counter list \<Rightarrow> counter list" where
  "resetCounter cs =
     snd (updateFirst (\<lambda>c. counter_id c = ''studentId'') (\<lambda>c. c\<lparr>sequence_value := 0\<rparr>) cs)"

definition deleteStudent :: "nat \<Rightarrow> world \<Rightarrow> response \<times> world" where
  "deleteStudent key w =
     (case await w of
        (Some e, w1) \<Rightarrow> (\<lparr>statusCode = 500, json = ErrorBody (message e)\<rparr>, w1)
      | (None, w1) \<Rightarrow>
          (case deleteFirst (\<lambda>s. oid s = key) (students w1) of
             (None, ss) \<Rightarrow> (\<lparr>statusCode = 404, json = ErrorBody ''Student not found''\<rparr>, w1)
           | (Some st, ss) \<Rightarrow>
               (case await (w1\<lparr>students := ss\<rparr>) of
                  (Some e, w2) \<Rightarrow> (\<lparr>statusCode = 500, json = ErrorBody (message e)\<rparr>, w2)
                | (None, w2) \<Rightarrow>
                    (let remainingStudents = length (students w2) in
                     if remainingStudents = 0 then
                       (case await w2 of
                          (Some e, w3) \<Rightarrow>
                            (\<lparr>statusCode = 500, json = ErrorBody (message e)\<rparr>, w3)
                        | (None, w3) \<Rightarrow>
                            (\<lparr>statusCode = 200, json = MessageBody ''Student deleted successfully''\<rparr>,
                             w3\<lparr>counters := resetCounter (counters w3)\<rparr>))
                     else
                       (\<lparr>statusCode = 200, json = MessageBody ''Student deleted successfully''\<rparr>,
                        w2)))))"

section \<open>Dashboard statistics\<close>

text \<open>
  The success rate is computed on floating-point numbers. The model computes on the
  rationals and takes the rounding of a real number to the nearest floating-point number
  as the parameter \<open>fl\<close>, applied where the source rounds: after the division and after
  the multiplication. \<open>Math.round\<close> rounds to the nearest integer, a tie upwards.
\<close>

definition Math_round :: "rat \<Rightarrow> int" where
  "Math_round x = \<lfloor>x + 1 / 2\<rfloor>"

definition successRate :: "(rat \<Rightarrow> rat) \<Rightarrow> nat \<Rightarrow> nat \<Rightarrow> int" where
  "successRate fl totalStudents graduates =
     (if totalStudents > 0
      then Math_round (fl (fl (of_nat graduates / of_nat totalStudents) * 100))
      else 0)"

definition getStats :: "(rat \<Rightarrow> rat) \<Rightarrow> world \<Rightarrow> response \<times> world" where
  "getStats fl w =
     (case await w of
        (Some e, w1) \<Rightarrow> (\<lparr>statusCode = 500, json = ErrorBody (message e)\<rparr>, w1)
      | (None, w1) \<Rightarrow>
          (let totalStudents = length (students w1) in
           case await w1 of
             (Some e, w2) \<Rightarrow> (\<lparr>statusCode = 500, json = ErrorBody (message e)\<rparr>, w2)
           | (None, w2) \<Rightarrow>
               (let activeCourses = length (filter (\<lambda>c. courseStatus c = ''Active'') (courses w2)) in
                case await w2 of
                  (Some e, w3) \<Rightarrow> (\<lparr>statusCode = 500, json = ErrorBody (message e)\<rparr>, w3)
                | (None, w3) \<Rightarrow>
                    (let graduates = length (filter (\<lambda>s. status s = JStr ''Inactive'') (students w3)) in
                     (\<lparr>statusCode = 200,
                       json = StatsBody totalStudents activeCourses graduates
                                (successRate fl totalStudents graduates)\<rparr>, w3)))))"

section \<open>Requests, runs and observations\<close>

text \<open>
  The value of a named sequence, as the next allocation will see it: the value of the
  first counter document of that name, and \<open>INITIAL_ID_VALUE\<close> while there is no such
  document (the upsert of \<open>getNextSequenceValue\<close> inserts it with that value).
\<close>

definition sequenceValue :: "string \<Rightarrow> counter list \<Rightarrow> int" where
  "sequenceValue n cs =
     (case find (\<lambda>c. counter_id c = n) cs of
        None \<Rightarrow> INITIAL_ID_VALUE
      | Some c \<Rightarrow> sequence_value c)"


text \<open>The next \<open>k\<close> awaited calls proceed.\<close>

definition proceeds :: "nat \<Rightarrow> world \<Rightarrow> bool" where
  "proceeds k w = list_all (\<lambda>f. f = None) (take k (faults w))"

text \<open>A duplicate-key error whose key pattern names \<open>studentId\<close>; a duplicate-key error
  that the loop answers with another iteration (before the last one); and the script of
  a run of attempts whose allocation succeeds and whose save fails with the given errors.\<close>

definition idCollision :: "error \<Rightarrow> bool" where
  "idCollision e = (code e = Some 11000 \<and> hasKey e ''studentId'')"

definition retried :: "error \<Rightarrow> bool" where
  "retried e = (code e = Some 11000 \<and> (hasKey e ''studentId'' \<or> \<not> hasKey e ''email''))"

definition failedSaves :: "error list \<Rightarrow> error option list" where
  "failedSaves es = concat (map (\<lambda>e. [None, None, Some e]) es)"

fun isStr :: "jsval \<Rightarrow> bool" where
  "isStr (JStr s) = True"
| "isStr v = False"

definition stringFields :: "body \<Rightarrow> bool" where
  "stringFields b = (isStr (field b ''name'') \<and> isStr (field b ''email'') \<and> isStr (field b ''course''))"

text \<open>The requests that touch the counter or the student collection, and runs of them.
  A request resets the counter when it is a delete that answers with success and leaves
  the collection empty.\<close>

datatype request =
    NextId string
  | Create body
  | Update nat body
  | Delete nat

fun exec :: "request \<Rightarrow> world \<Rightarrow> world" where
  "exec (NextId n) w = snd (getNextSequenceValue n w)"
| "exec (Create b) w = snd (createStudent b w)"
| "exec (Update key b) w = snd (updateStudent key b w)"
| "exec (Delete key) w = snd (deleteStudent key w)"

fun resets :: "request \<Rightarrow> world \<Rightarrow> bool" where
  "resets (Delete key) w =
     (statusCode (fst (deleteStudent key w)) = 200 \<and> students (snd (deleteStudent key w)) = [])"
| "resets r w = False"

fun run :: "request list \<Rightarrow> world \<Rightarrow> world" where
  "run [] w = w"
| "run (r # rs) w = run rs (exec r w)"

fun noReset :: "request list \<Rightarrow> world \<Rightarrow> bool" where
  "noReset [] w = True"
| "noReset (r # rs) w = (\<not> resets r w \<and> noReset rs (exec r w))"

text \<open>The outcome the next awaited call will take, and the effect of one successful
  allocation on the counter collection (the upsert, then the increment).\<close>

definition nextFault :: "error option list \<Rightarrow> error option" where
  "nextFault fs = (case fs of [] \<Rightarrow> None | f # _ \<Rightarrow> f)"

definition bump :: "string \<Rightarrow> counter list \<Rightarrow> counter list" where
  "bump n cs = snd (updateFirst (\<lambda>c. counter_id c = n)
                 (\<lambda>c. c\<lparr>sequence_value := numInc (sequence_value c)\<rparr>)
                 (upsertSetOnInsert n INITIAL_ID_VALUE cs))"

text \<open>The integers on which every sum with one is exact: magnitude below \<open>2 ^ 53\<close>.\<close>

definition safeInteger :: "int \<Rightarrow> bool" where
  "safeInteger x = (\<bar>x\<bar> \<le> 2 ^ 53 - 1)"

section \<open>Example inputs\<close>

text \<open>A request body with the four required fields, one that also tries to set
  \<open>studentId\<close>, duplicate-key errors on three different indexes, an empty database, a
  database whose next saves collide on \<open>studentId\<close>, and the database after two
  students were created in the empty one.\<close>

definition annBody :: body where
  "annBody = [(''name'', JStr ''Ann''), (''email'', JStr ''Ann@Example.org ''),
              (''course'', JStr ''Algebra''), (''enrollmentDate'', JStr ''2024-09-01'')]"

definition bobBody :: body where
  "bobBody = [(''name'', JStr '' Bob ''), (''email'', JStr ''BOB@example.org''),
              (''course'', JStr ''Logic''), (''enrollmentDate'', JStr ''2025-01-15''),
              (''status'', JStr ''Inactive''), (''studentId'', JNum 99)]"

definition idConflict :: error where
  "idConflict = \<lparr>code = Some 11000, keyPattern = Some [(''studentId'', 1)],
                  message = ''E11000 duplicate key error''\<rparr>"

definition emailConflict :: error where
  "emailConflict = \<lparr>code = Some 11000, keyPattern = Some [(''email'', 1)],
                     message = ''E11000 duplicate key error''\<rparr>"

definition nameConflict :: error where
  "nameConflict = \<lparr>code = Some 11000, keyPattern = Some [(''name'', 1)],
                    message = ''E11000 duplicate key error''\<rparr>"

definition emptyWorld :: world where
  "emptyWorld = \<lparr>students = [], counters = [], courses = [], nextOid = 0, faults = []\<rparr>"

definition collidingWorld :: "nat \<Rightarrow> error option list \<Rightarrow> world" where
  "collidingWorld k fs = emptyWorld\<lparr>faults := failedSaves (replicate k idConflict) @ fs\<rparr>"

definition twoStudents :: world where
  "twoStudents = run [Create annBody, Create annBody] emptyWorld"

definition mixedRun :: "request list" where
  "mixedRun = [Create annBody, NextId ''courseId'', Update 0 annBody, Create annBody, Delete 0]"

definition emailConflictWorld :: world where
  "emailConflictWorld =
     emptyWorld\<lparr>faults := failedSaves [nameConflict, idConflict] @ [None, None, Some emailConflict]\<rparr>"

text \<open>A database whose \<open>studentId\<close> counter holds \<open>2 ^ 53 - 1\<close>, the largest integer whose
  successor a Number still tells apart from it.\<close>

definition nearLimit :: world where
  "nearLimit = emptyWorld\<lparr>counters := [\<lparr>counter_id = ''studentId'', sequence_value = 9007199254740991\<rparr>]\<rparr>"

section \<open>Store primitives and the counter\<close>

text \<open>The loop equation is unfolded by hand, one iteration at a time.\<close>

declare createLoop.simps [simp del]

declare bitLength.simps [simp del]

lemma bitLength_bounds: "0 < a \<Longrightarrow> 2 ^ (bitLength a - 1) \<le> a \<and> a < 2 ^ bitLength a"
proof (induction a rule: bitLength.induct)
  case (1 a)
  have b: "bitLength a = Suc (bitLength (a div 2))" using "1.prems" by (simp add: bitLength.simps[of a])
  show ?case
  proof (cases "a div 2 \<le> 0")
    case True
    with "1.prems" have "a = 1" by linarith
    then show ?thesis by (simp add: bitLength.simps[of 1] bitLength.simps[of 0])
  next
    case False
    then have ih: "2 ^ (bitLength (a div 2) - 1) \<le> a div 2" "a div 2 < 2 ^ bitLength (a div 2)"
      using "1.IH" "1.prems" by simp_all
    obtain k where k: "bitLength (a div 2) = Suc k"
      using False by (cases "bitLength (a div 2)") (simp_all add: bitLength.simps[of "a div 2"])
    have "(2::int) ^ (bitLength a - 1) = 2 * 2 ^ (bitLength (a div 2) - 1)"
      using b k by simp
    also have "\<dots> \<le> 2 * (a div 2)" using ih(1) by simp
    also have "\<dots> \<le> a" by linarith
    finally have lo: "2 ^ (bitLength a - 1) \<le> a" .
    have "a < 2 * (a div 2) + 2" by linarith
    also have "\<dots> \<le> 2 * 2 ^ bitLength (a div 2)" using ih(2) by simp
    finally have hi: "a < 2 ^ bitLength a" using b by simp
    show ?thesis using lo hi by simp
  qed
qed

lemma toNumber_exact: "\<bar>x\<bar> \<le> 2 ^ 53 \<Longrightarrow> toNumber x = x"
  by (simp add: toNumber_def)

lemma toNumber_large:
  assumes "2 ^ 53 \<le> x"
  shows "2 ^ 53 \<le> toNumber x"
proof (cases "\<bar>x\<bar> \<le> 2 ^ 53")
  case True
  then show ?thesis using assms by (simp add: toNumber_def)
next
  case False
  define e where "e = bitLength x - 53"
  define q where "q = x div 2 ^ e"
  define r where "r = x mod 2 ^ e"
  define m where "m = (if 2 * r < 2 ^ e \<or> (2 * r = 2 ^ e \<and> even q) then q else q + 1)"
  have xa: "\<bar>x\<bar> = x" "2 ^ 53 < x" "0 < x" "sgn x = 1" using assms False by auto
  have bl: "2 ^ (bitLength x - 1) \<le> x" "x < 2 ^ bitLength x"
    using bitLength_bounds[OF xa(3)] by auto
  have up: "(2::int) ^ 53 < 2 ^ bitLength x" using xa(2) bl(2) by linarith
  have b54: "53 < bitLength x"
  proof (rule ccontr)
    assume "\<not> 53 < bitLength x"
    then have "(2::int) ^ bitLength x \<le> 2 ^ 53" by (intro power_increasing) simp_all
    with up show False by linarith
  qed
  then have e1: "1 \<le> e" "bitLength x - 1 = 52 + e" by (auto simp: e_def)
  have pe: "(0::int) < 2 ^ e" by simp
  have le: "(2::int) ^ 52 * 2 ^ e \<le> x" using bl(1) e1(2) by (simp only: power_add)
  have "((2::int) ^ 52 * 2 ^ e) div 2 ^ e \<le> x div 2 ^ e" using le pe by (rule zdiv_mono1)
  moreover have "((2::int) ^ 52 * 2 ^ e) div 2 ^ e = 2 ^ 52" by (rule nonzero_mult_div_cancel_right) simp
  ultimately have q52: "(2::int) ^ 52 \<le> q" unfolding q_def by (simp only:)
  have qm: "q \<le> m" by (simp add: m_def)
  have "(2::int) ^ 52 \<le> m" using q52 qm by (rule order_trans)
  then have m1: "(2::int) ^ 52 * 2 ^ e \<le> m * 2 ^ e" by (rule mult_right_mono) simp
  have "(2::int) ^ 1 \<le> 2 ^ e" using e1(1) by (intro power_increasing) simp_all
  then have "(2::int) ^ 52 * 2 ^ 1 \<le> 2 ^ 52 * 2 ^ e" by (rule mult_left_mono) simp
  moreover have "(2::int) ^ 53 = 2 ^ 52 * 2 ^ 1" by simp
  ultimately have "(2::int) ^ 53 \<le> 2 ^ 52 * 2 ^ e" by (simp only:)
  then have m2: "(2::int) ^ 53 \<le> m * 2 ^ e" using m1 by (rule order_trans)
  have "toNumber x = sgn x * (m * 2 ^ e)"
    unfolding toNumber_def Let_def m_def q_def r_def e_def using False xa(1) by (simp only: if_False)
  then show ?thesis using m2 xa(4) by (simp only: mult_1)
qed

lemma numInc_exact: "- (2 ^ 53) \<le> v \<Longrightarrow> v < 2 ^ 53 \<Longrightarrow> numInc v = v + 1"
  unfolding numInc_def by (rule toNumber_exact) linarith

lemma numInc_large: "2 ^ 53 \<le> v \<Longrightarrow> 2 ^ 53 \<le> numInc v"
  unfolding numInc_def by (rule toNumber_large) linarith

lemma numInc_funpow_below:
  assumes "- (2 ^ 53) \<le> v"
  shows "(numInc ^^ k) v < 2 ^ 53 \<Longrightarrow> (numInc ^^ k) v = v + int k"
proof (induction k)
  case 0
  then show ?case by simp
next
  case (Suc k)
  let ?u = "(numInc ^^ k) v"
  have lt: "?u < 2 ^ 53"
  proof (rule ccontr)
    assume "\<not> ?u < 2 ^ 53"
    then have "2 ^ 53 \<le> numInc ?u" by (intro numInc_large) linarith
    with Suc.prems show False by simp
  qed
  then have u: "?u = v + int k" using Suc.IH by simp
  have "numInc ?u = ?u + 1" using assms u lt by (intro numInc_exact) linarith+
  then show ?case using u by simp
qed

lemma numInc_funpow_safe:
  assumes "- (2 ^ 53) \<le> v"
  shows "v + int k \<le> 2 ^ 53 \<Longrightarrow> (numInc ^^ k) v = v + int k"
proof (induction k)
  case 0
  then show ?case by simp
next
  case (Suc k)
  then have u: "(numInc ^^ k) v = v + int k" by simp
  have "numInc (v + int k) = v + int k + 1" using assms Suc.prems by (intro numInc_exact) linarith+
  then show ?case using u by simp
qed

lemma numInc_0: "numInc 0 = 1"
  by (simp add: numInc_def toNumber_def)

lemma numInc_1: "numInc 1 = 2"
  by (simp add: numInc_def toNumber_def)

lemma fst_updateFirst:
  "fst (updateFirst p f xs) = map_option f (find p xs)"
  by (induction xs) (auto split: prod.splits)

lemma find_append: "find p (xs @ ys) = (case find p xs of None \<Rightarrow> find p ys | Some x \<Rightarrow> Some x)"
  by (induction xs) auto

lemma find_upsert:
  "find (\<lambda>c. counter_id c = n) (upsertSetOnInsert n v cs) =
     Some (case find (\<lambda>c. counter_id c = n) cs of None \<Rightarrow> \<lparr>counter_id = n, sequence_value = v\<rparr> | Some c \<Rightarrow> c)"
  by (simp add: upsertSetOnInsert_def find_append split: option.splits)

lemma find_upsert_other:
  "m \<noteq> n \<Longrightarrow> find (\<lambda>c. counter_id c = m) (upsertSetOnInsert n v cs) = find (\<lambda>c. counter_id c = m) cs"
  by (simp add: upsertSetOnInsert_def find_append split: option.splits)

lemma snd_updateFirst_Cons:
  "snd (updateFirst p f (x # xs)) = (if p x then f x # xs else x # snd (updateFirst p f xs))"
  by (simp split: prod.splits)

lemma find_updateFirst_same:
  assumes "\<And>x. p (f x) = p x"
  shows "find p (snd (updateFirst p f xs)) = map_option f (find p xs)"
  by (induction xs) (simp_all add: assms snd_updateFirst_Cons del: updateFirst.simps(2))

lemma find_updateFirst_other:
  assumes "\<And>x. q (f x) = q x" "\<And>x. p x \<Longrightarrow> \<not> q x"
  shows "find q (snd (updateFirst p f xs)) = find q xs"
  using assms(2) by (induction xs) (simp_all add: assms(1) snd_updateFirst_Cons del: updateFirst.simps(2))

lemma map_updateFirst:
  assumes "\<And>x. g (f x) = g x"
  shows "map g (snd (updateFirst p f xs)) = map g xs"
  by (induction xs) (simp_all add: assms snd_updateFirst_Cons del: updateFirst.simps(2))

lemma deleteFirst_none:
  "\<forall>x\<in>set xs. \<not> p x \<Longrightarrow> deleteFirst p xs = (None, xs)"
  by (induction xs) auto

lemma sequenceValue_upsert:
  "sequenceValue m (upsertSetOnInsert n INITIAL_ID_VALUE cs) = sequenceValue m cs"
  by (cases "m = n") (simp_all add: sequenceValue_def find_upsert find_upsert_other split: option.splits)

lemma await_eq: "await w = (nextFault (faults w), w\<lparr>faults := tl (faults w)\<rparr>)"
  by (cases "faults w") (simp_all add: await_def nextFault_def)

lemma proceeds_Suc:
  "proceeds (Suc k) w \<Longrightarrow> nextFault (faults w) = None \<and> proceeds k (w\<lparr>faults := tl (faults w)\<rparr>)"
  by (cases "faults w") (simp_all add: proceeds_def nextFault_def)

lemma getNext_eq:
  "getNextSequenceValue n w =
     (case nextFault (faults w) of
        Some e \<Rightarrow> (Inl e, w\<lparr>faults := tl (faults w)\<rparr>)
      | None \<Rightarrow>
          (case nextFault (tl (faults w)) of
             Some e \<Rightarrow> (Inl e, w\<lparr>counters := upsertSetOnInsert n INITIAL_ID_VALUE (counters w),
                                 faults := tl (tl (faults w))\<rparr>)
           | None \<Rightarrow> (Inr (numInc (sequenceValue n (counters w))),
                      w\<lparr>counters := bump n (counters w), faults := tl (tl (faults w))\<rparr>)))"
proof -
  let ?p = "\<lambda>c. counter_id c = n"
  let ?f = "\<lambda>c. c\<lparr>sequence_value := numInc (sequence_value c)\<rparr>"
  let ?cs = "upsertSetOnInsert n INITIAL_ID_VALUE (counters w)"
  obtain u cs' where u: "updateFirst ?p ?f ?cs = (u, cs')" by (cases "updateFirst ?p ?f ?cs")
  have u1: "u = Some (?f (case find ?p (counters w) of None \<Rightarrow> \<lparr>counter_id = n, sequence_value = INITIAL_ID_VALUE\<rparr> | Some c \<Rightarrow> c))"
    using fst_updateFirst[of ?p ?f ?cs] u by (simp add: find_upsert)
  have u2: "cs' = bump n (counters w)" using u by (simp add: bump_def)
  have v: "sequence_value (the u) = numInc (sequenceValue n (counters w))"
    unfolding u1 by (simp add: sequenceValue_def split: option.splits)
  show ?thesis
    using u v u1 u2
    by (simp add: getNextSequenceValue_def await_eq Let_def split: option.splits)
qed

lemma sequenceValue_bump:
  "sequenceValue m (bump n cs) = (if m = n then numInc (sequenceValue m cs) else sequenceValue m cs)"
proof -
  let ?p = "\<lambda>c. counter_id c = n"
  let ?f = "\<lambda>c. c\<lparr>sequence_value := numInc (sequence_value c)\<rparr>"
  let ?cs = "upsertSetOnInsert n INITIAL_ID_VALUE cs"
  show ?thesis
  proof (cases "m = n")
    case True
    have "find ?p (bump n cs) = map_option ?f (find ?p ?cs)"
      unfolding bump_def by (rule find_updateFirst_same) simp
    then show ?thesis using True
      by (simp add: sequenceValue_def find_upsert split: option.splits)
  next
    case False
    have "find (\<lambda>c. counter_id c = m) (bump n cs) = find (\<lambda>c. counter_id c = m) ?cs"
      unfolding bump_def by (rule find_updateFirst_other) (use False in auto)
    then show ?thesis using False
      by (simp add: sequenceValue_def find_upsert_other)
  qed
qed

lemma getNext_steps:
  "\<exists>k. sequenceValue m (counters (snd (getNextSequenceValue n w)))
        = (numInc ^^ k) (sequenceValue m (counters w))"
proof -
  have "sequenceValue m (counters (snd (getNextSequenceValue n w))) = (numInc ^^ 0) (sequenceValue m (counters w))
        \<or> sequenceValue m (counters (snd (getNextSequenceValue n w))) = (numInc ^^ 1) (sequenceValue m (counters w))"
    by (simp add: getNext_eq sequenceValue_upsert sequenceValue_bump split: option.splits)
  then show ?thesis by blast
qed

lemma getNext_Inr:
  assumes "getNextSequenceValue n w = (Inr a, w')"
  shows "a = numInc (sequenceValue n (counters w))" "sequenceValue n (counters w') = a"
  using assms by (auto simp: getNext_eq sequenceValue_bump split: option.splits)

lemma getNext_ok:
  assumes "proceeds 2 w"
  shows "getNextSequenceValue n w =
           (Inr (numInc (sequenceValue n (counters w))),
            w\<lparr>counters := bump n (counters w), faults := tl (tl (faults w))\<rparr>)"
proof -
  have p2: "proceeds (Suc (Suc 0)) w" using assms by (simp add: numeral_2_eq_2)
  have n1: "nextFault (faults w) = None" and p1: "proceeds (Suc 0) (w\<lparr>faults := tl (faults w)\<rparr>)"
    using proceeds_Suc[OF p2] by auto
  have n2: "nextFault (tl (faults w)) = None" using proceeds_Suc[OF p1] by auto
  show ?thesis using n1 n2 by (simp add: getNext_eq)
qed

lemma proceeds_after:
  "proceeds 4 u \<Longrightarrow> proceeds 2 u \<and> proceeds 2 (u\<lparr>counters := cs, faults := tl (tl (faults u))\<rparr>)"
  by (cases "faults u"; cases "tl (faults u)") (auto simp: proceeds_def take_Suc_conv_app_nth numeral_eq_Suc)

lemma sequenceValue_reset: "sequenceValue ''studentId'' (resetCounter cs) = 0"
proof -
  have "find (\<lambda>c. counter_id c = ''studentId'') (resetCounter cs)
        = map_option (\<lambda>c. c\<lparr>sequence_value := 0\<rparr>) (find (\<lambda>c. counter_id c = ''studentId'') cs)"
    unfolding resetCounter_def by (rule find_updateFirst_same) simp
  then show ?thesis by (simp add: sequenceValue_def INITIAL_ID_VALUE_def split: option.splits)
qed

section \<open>The retry loop\<close>

lemma newStudent_ok:
  assumes "stringFields b"
  shows "\<exists>st. newStudent k i b = Inr st \<and> studentId st = i \<and> oid st = k"
proof -
  from assms obtain n m c where
    "field b ''name'' = JStr n" "field b ''email'' = JStr m" "field b ''course'' = JStr c"
    unfolding stringFields_def
    by (metis isStr.elims(2))
  then show ?thesis by (simp add: newStudent_def)
qed

lemma idCollision_retried: "idCollision e \<Longrightarrow> retried e"
  by (simp add: idCollision_def retried_def)

lemma tryCreate_collide:
  assumes "stringFields b" "faults w = None # None # Some e # fs"
  shows "\<exists>w'. tryCreate b w = (Inl e, w') \<and> students w' = students w \<and> faults w' = fs
              \<and> counters w' = bump ''studentId'' (counters w)"
proof -
  obtain st where st: "newStudent (nextOid w) (numInc (sequenceValue ''studentId'' (counters w))) b = Inr st"
    using newStudent_ok[OF assms(1)] by blast
  show ?thesis
    using st assms(2)
    by (simp add: tryCreate_def getNext_eq await_eq nextFault_def)
qed

lemma tryCreate_saved:
  assumes "stringFields b" "proceeds 3 w"
  shows "\<exists>st w'. tryCreate b w = (Inr st, w') \<and> students w' = students w @ [st]
              \<and> studentId st = numInc (sequenceValue ''studentId'' (counters w))
              \<and> faults w' = tl (tl (tl (faults w)))
              \<and> counters w' = bump ''studentId'' (counters w)"
proof -
  obtain st where st: "newStudent (nextOid w) (numInc (sequenceValue ''studentId'' (counters w))) b = Inr st"
    "studentId st = numInc (sequenceValue ''studentId'' (counters w))"
    using newStudent_ok[OF assms(1)] by blast
  have p3: "proceeds (Suc (Suc (Suc 0))) w" using assms(2) by (simp add: numeral_3_eq_3)
  have n1: "nextFault (faults w) = None" and p2: "proceeds (Suc (Suc 0)) (w\<lparr>faults := tl (faults w)\<rparr>)"
    using proceeds_Suc[OF p3] by auto
  have n2: "nextFault (tl (faults w)) = None"
    and p1: "proceeds (Suc 0) (w\<lparr>faults := tl (tl (faults w))\<rparr>)"
    using proceeds_Suc[OF p2] by auto
  have n3: "nextFault (tl (tl (faults w))) = None"
    using proceeds_Suc[OF p1] by auto
  show ?thesis
    using st n1 n2 n3
    by (simp add: tryCreate_def getNext_eq await_eq)
qed

lemma createLoop_retries:
  assumes "stringFields b" "\<forall>e\<in>set es. retried e"
    "attempt + length es < MAX_RETRIES" "faults w = failedSaves es @ fs"
  shows "\<exists>w'. createLoop attempt b w = createLoop (attempt + length es) b w'
              \<and> students w' = students w \<and> faults w' = fs
              \<and> sequenceValue ''studentId'' (counters w')
                  = (numInc ^^ length es) (sequenceValue ''studentId'' (counters w))"
  using assms(2-)
proof (induction es arbitrary: attempt w)
  case Nil
  then show ?case by (intro exI[of _ w]) (simp add: failedSaves_def)
next
  case (Cons e es)
  from Cons.prems have f: "faults w = None # None # Some e # (failedSaves es @ fs)"
    by (simp add: failedSaves_def)
  obtain w1 where w1: "tryCreate b w = (Inl e, w1)" "students w1 = students w"
    "faults w1 = failedSaves es @ fs" "counters w1 = bump ''studentId'' (counters w)"
    using tryCreate_collide[OF assms(1) f] by blast
  have e: "retried e" using Cons.prems by simp
  have a: "attempt < MAX_RETRIES" "attempt \<noteq> MAX_RETRIES - 1" using Cons.prems by auto
  have step: "createLoop attempt b w = createLoop (attempt + 1) b w1"
    using w1(1) e a by (subst createLoop.simps) (auto simp: onAttemptError_def retried_def)
  obtain w' where w': "createLoop (attempt + 1) b w1 = createLoop (attempt + 1 + length es) b w'"
    "students w' = students w1" "faults w' = fs"
    "sequenceValue ''studentId'' (counters w')
       = (numInc ^^ length es) (sequenceValue ''studentId'' (counters w1))"
    using Cons.IH[of "attempt + 1" w1] Cons.prems w1(3) by auto
  show ?case
    using step w' w1 by (auto simp: sequenceValue_bump funpow_swap1)
qed

lemma retryFailure_names_id: "str_includes retryFailure ''unique Student ID''"
  by (simp add: retryFailure_def)

lemma retryFailure_not_email: "\<not> str_includes retryFailure ''A duplicate email was found''"
  by (simp add: retryFailure_def)

lemma duplicateEmailFailure_names_email: "str_includes duplicateEmailFailure ''A duplicate email was found''"
  by (simp add: duplicateEmailFailure_def)

lemma createCatch_retry: "createCatch (mkError retryFailure) = \<lparr>statusCode = 500, json = ErrorBody retryFailure\<rparr>"
  using retryFailure_names_id retryFailure_not_email by (simp add: createCatch_def mkError_def)

lemma createCatch_email: "createCatch (mkError duplicateEmailFailure) = \<lparr>statusCode = 400, json = ErrorBody duplicateEmailFailure\<rparr>"
  using duplicateEmailFailure_names_email by (simp add: createCatch_def mkError_def)

text \<open>
  Claim C1. When all five attempts of a create request reach the save and every save
  fails with a duplicate-key error on \<open>studentId\<close>, the request fails with the
  allocation failure (\<open>retryFailure\<close>), the response has status 500, and the student
  collection is as before: nothing was persisted. The request body is well formed
  (the required fields are there, the three text fields are strings), since otherwise
  no save is attempted; the script of store outcomes is exactly five rounds of
  allocation, allocation, failed save, followed by anything.
\<close>

theorem create_exhausted:
  assumes "\<not> requiredMissing b" "stringFields b"
    "length es = MAX_RETRIES" "\<forall>e\<in>set es. idCollision e"
    "faults w = failedSaves es @ fs"
  shows "fst (createStudent b w) = \<lparr>statusCode = 500, json = ErrorBody retryFailure\<rparr>
         \<and> students (snd (createStudent b w)) = students w
         \<and> faults (snd (createStudent b w)) = fs"
proof -
  from assms(3) obtain es' e where es: "es = es' @ [e]" "length es' = MAX_RETRIES - 1"
    by (cases es rule: rev_cases) (auto simp: MAX_RETRIES_def)
  have f: "faults w = failedSaves es' @ (None # None # Some e # fs)"
    using assms(5) es by (simp add: failedSaves_def)
  have c: "\<forall>e\<in>set es'. retried e" "idCollision e"
    using assms(4) es by (auto intro: idCollision_retried)
  have l: "0 + length es' < MAX_RETRIES" using es(2) by (simp add: MAX_RETRIES_def)
  obtain w1 where w1: "createLoop 0 b w = createLoop (0 + length es') b w1"
    "students w1 = students w" "faults w1 = None # None # Some e # fs"
    using createLoop_retries[OF assms(2) c(1) l f] by blast
  obtain w2 where w2: "tryCreate b w1 = (Inl e, w2)" "students w2 = students w1" "faults w2 = fs"
    using tryCreate_collide[OF assms(2) w1(3)] by blast
  have "createLoop (MAX_RETRIES - 1) b w1 = (Inl (mkError retryFailure), w2)"
    using w2(1) c(2)
    by (subst createLoop.simps) (simp add: onAttemptError_def idCollision_def MAX_RETRIES_def)
  then have "createLoop 0 b w = (Inl (mkError retryFailure), w2)"
    using w1(1) es(2) by simp
  then show ?thesis
    using assms(1) w2 w1(2) by (simp add: createStudent_def createCatch_retry)
qed

theorem create_exhausted_witness:
  "fst (createStudent annBody (collidingWorld 5 [])) = \<lparr>statusCode = 500, json = ErrorBody retryFailure\<rparr>
   \<and> students (snd (createStudent annBody (collidingWorld 5 []))) = students (collidingWorld 5 [])
   \<and> faults (snd (createStudent annBody (collidingWorld 5 []))) = []"
proof -
  have h1: "\<not> requiredMissing annBody" by code_simp
  have h2: "stringFields annBody" by code_simp
  have h3: "length (replicate 5 idConflict) = MAX_RETRIES" by code_simp
  have h4: "\<forall>e\<in>set (replicate 5 idConflict). idCollision e" by code_simp
  have h5: "faults (collidingWorld 5 []) = failedSaves (replicate 5 idConflict) @ []" by code_simp
  show ?thesis by (rule create_exhausted[OF h1 h2 h3 h4 h5])
qed

text \<open>
  Claim C2, as amended. The claim speaks of a conflict on any field other than
  \<open>studentId\<close>; the loop aborts on a conflict whose key pattern names \<open>email\<close> and goes
  to the next iteration on a conflict on any other field. What holds: when an attempt,
  after any number of retried failures short of the limit, fails with a duplicate-key
  error whose key pattern names \<open>email\<close> and not \<open>studentId\<close>, the request ends at once
  with status 400 and the duplicate-email message; nothing is persisted, the rest of
  the script is untouched (no further store call is made) and the counter has been
  incremented exactly once for each attempt made so far (so it has advanced by their
  number, as long as the sum does not exceed \<open>2 ^ 53\<close>).
\<close>

theorem create_email_conflict_aborts:
  assumes "\<not> requiredMissing b" "stringFields b"
    "length es < MAX_RETRIES" "\<forall>e\<in>set es. retried e"
    "code e = Some 11000" "\<not> hasKey e ''studentId''" "hasKey e ''email''"
    "faults w = failedSaves es @ None # None # Some e # fs"
  shows "fst (createStudent b w) = \<lparr>statusCode = 400, json = ErrorBody duplicateEmailFailure\<rparr>
         \<and> students (snd (createStudent b w)) = students w
         \<and> faults (snd (createStudent b w)) = fs
         \<and> sequenceValue ''studentId'' (counters (snd (createStudent b w)))
             = (numInc ^^ (length es + 1)) (sequenceValue ''studentId'' (counters w))
         \<and> (- (2 ^ 53) \<le> sequenceValue ''studentId'' (counters w)
               \<and> sequenceValue ''studentId'' (counters w) + int (length es) + 1 \<le> 2 ^ 53
              \<longrightarrow> sequenceValue ''studentId'' (counters (snd (createStudent b w)))
                    = sequenceValue ''studentId'' (counters w) + int (length es) + 1)"
proof -
  let ?v = "sequenceValue ''studentId'' (counters w)"
  have l: "0 + length es < MAX_RETRIES" using assms(3) by simp
  obtain w1 where w1: "createLoop 0 b w = createLoop (0 + length es) b w1"
    "students w1 = students w" "faults w1 = None # None # Some e # fs"
    "sequenceValue ''studentId'' (counters w1) = (numInc ^^ length es) ?v"
    using createLoop_retries[OF assms(2) assms(4) l assms(8)] by blast
  obtain w2 where w2: "tryCreate b w1 = (Inl e, w2)" "students w2 = students w1" "faults w2 = fs"
    "counters w2 = bump ''studentId'' (counters w1)"
    using tryCreate_collide[OF assms(2) w1(3)] by blast
  have "createLoop (length es) b w1 = (Inl (mkError duplicateEmailFailure), w2)"
    using w2(1) assms(3,5,6,7)
    by (subst createLoop.simps) (simp add: onAttemptError_def)
  then have c: "createLoop 0 b w = (Inl (mkError duplicateEmailFailure), w2)"
    using w1(1) by simp
  have v2: "sequenceValue ''studentId'' (counters w2) = (numInc ^^ (length es + 1)) ?v"
    using w2(4) w1(4) by (simp add: sequenceValue_bump)
  have safe: "sequenceValue ''studentId'' (counters w2) = ?v + int (length es) + 1"
    if "- (2 ^ 53) \<le> ?v \<and> ?v + int (length es) + 1 \<le> 2 ^ 53"
  proof -
    have "(numInc ^^ (length es + 1)) ?v = ?v + int (length es + 1)"
      using that by (intro numInc_funpow_safe) simp_all
    then show ?thesis using v2 by simp
  qed
  have res: "createStudent b w = (\<lparr>statusCode = 400, json = ErrorBody duplicateEmailFailure\<rparr>, w2)"
    using assms(1) c by (simp add: createStudent_def createCatch_email)
  have "fst (createStudent b w) = \<lparr>statusCode = 400, json = ErrorBody duplicateEmailFailure\<rparr>
        \<and> students (snd (createStudent b w)) = students w
        \<and> faults (snd (createStudent b w)) = fs
        \<and> counters (snd (createStudent b w)) = counters w2"
    unfolding res using w2(2,3) w1(2) by simp
  then show ?thesis using v2 safe by metis
qed

theorem create_email_conflict_aborts_witness:
  "fst (createStudent annBody emailConflictWorld)
     = \<lparr>statusCode = 400, json = ErrorBody duplicateEmailFailure\<rparr>
   \<and> students (snd (createStudent annBody emailConflictWorld)) = students emailConflictWorld
   \<and> faults (snd (createStudent annBody emailConflictWorld)) = []
   \<and> sequenceValue ''studentId'' (counters emailConflictWorld) = 0
   \<and> sequenceValue ''studentId'' (counters (snd (createStudent annBody emailConflictWorld))) = 3"
proof -
  let ?w = "emailConflictWorld"
  have h1: "\<not> requiredMissing annBody" by code_simp
  have h2: "stringFields annBody" by code_simp
  have h3: "length [nameConflict, idConflict] < MAX_RETRIES" by code_simp
  have h4: "\<forall>e\<in>set [nameConflict, idConflict]. retried e" by code_simp
  have h5: "code emailConflict = Some 11000" by code_simp
  have h6: "\<not> hasKey emailConflict ''studentId''" by code_simp
  have h7: "hasKey emailConflict ''email''" by code_simp
  have h8: "faults ?w = failedSaves [nameConflict, idConflict] @ None # None # Some emailConflict # []"
    by code_simp
  have s: "sequenceValue ''studentId'' (counters ?w) = 0" by code_simp
  have r: "- (2 ^ 53) \<le> sequenceValue ''studentId'' (counters ?w)
           \<and> sequenceValue ''studentId'' (counters ?w) + int (length [nameConflict, idConflict]) + 1 \<le> 2 ^ 53"
    unfolding s by simp
  have t: "fst (createStudent annBody ?w) = \<lparr>statusCode = 400, json = ErrorBody duplicateEmailFailure\<rparr>"
    "students (snd (createStudent annBody ?w)) = students ?w"
    "faults (snd (createStudent annBody ?w)) = []"
    "sequenceValue ''studentId'' (counters (snd (createStudent annBody ?w)))
       = sequenceValue ''studentId'' (counters ?w) + int (length [nameConflict, idConflict]) + 1"
    using create_email_conflict_aborts[OF h1 h2 h3 h4 h5 h6 h7 h8] r by blast+
  show ?thesis using t s by simp
qed

text \<open>
  The claim C2 as stated fails: a first save that fails with a duplicate-key error on
  the index of \<open>name\<close> is followed by a second attempt, which allocates identifier 2,
  saves, and answers 201.
\<close>

theorem create_other_conflict_retried:
  "code nameConflict = Some 11000 \<and> \<not> hasKey nameConflict ''studentId''
   \<and> fst (tryCreate annBody (emptyWorld\<lparr>faults := [None, None, Some nameConflict]\<rparr>)) = Inl nameConflict
   \<and> statusCode (fst (createStudent annBody (emptyWorld\<lparr>faults := [None, None, Some nameConflict]\<rparr>))) = 201
   \<and> map studentId (students (snd (createStudent annBody (emptyWorld\<lparr>faults := [None, None, Some nameConflict]\<rparr>)))) = [2]
   \<and> sequenceValue ''studentId''
        (counters (snd (createStudent annBody (emptyWorld\<lparr>faults := [None, None, Some nameConflict]\<rparr>)))) = 2"
  by code_simp

section \<open>Runs without a reset\<close>

lemma tryCreate_counters:
  "counters (snd (tryCreate b w)) = counters (snd (getNextSequenceValue ''studentId'' w))"
  by (simp add: tryCreate_def await_eq split: prod.splits sum.splits option.splits)

lemma createLoop_steps:
  "\<exists>k. sequenceValue m (counters (snd (createLoop attempt b w)))
        = (numInc ^^ k) (sequenceValue m (counters w))"
proof (induction attempt b w rule: createLoop.induct)
  case (1 attempt b w)
  obtain j where t: "sequenceValue m (counters (snd (tryCreate b w)))
                     = (numInc ^^ j) (sequenceValue m (counters w))"
    unfolding tryCreate_counters using getNext_steps by blast
  show ?case
  proof (cases "attempt < MAX_RETRIES")
    case False
    then have "createLoop attempt b w
               = (Inr \<lparr>statusCode = 500,
                       json = ErrorBody ''Internal server error during student creation.''\<rparr>, w)"
      by (subst createLoop.simps) simp
    then have "sequenceValue m (counters (snd (createLoop attempt b w)))
               = (numInc ^^ 0) (sequenceValue m (counters w))" by simp
    then show ?thesis by blast
  next
    case True
    obtain r w1 where r: "tryCreate b w = (r, w1)" by (cases "tryCreate b w")
    show ?thesis
    proof (cases r)
      case (Inr st)
      then have "snd (createLoop attempt b w) = w1"
        using True r by (subst createLoop.simps) simp
      then show ?thesis using t r by auto
    next
      case (Inl e)
      show ?thesis
      proof (cases "onAttemptError attempt e")
        case (Some e')
        then have "snd (createLoop attempt b w) = w1"
          using True r Inl by (subst createLoop.simps) simp
        then show ?thesis using t r by auto
      next
        case None
        obtain k where k: "sequenceValue m (counters (snd (createLoop (attempt + 1) b w1)))
                           = (numInc ^^ k) (sequenceValue m (counters w1))"
          using "1.IH"[OF True r[symmetric] Inl None] by blast
        have "createLoop attempt b w = createLoop (attempt + 1) b w1"
          using True r Inl None by (subst createLoop.simps) simp
        then have "sequenceValue m (counters (snd (createLoop attempt b w)))
                   = (numInc ^^ (k + j)) (sequenceValue m (counters w))"
          using k t r by (simp add: funpow_add)
        then show ?thesis by blast
      qed
    qed
  qed
qed

lemma createStudent_steps:
  "\<exists>k. sequenceValue m (counters (snd (createStudent b w)))
        = (numInc ^^ k) (sequenceValue m (counters w))"
proof (cases "requiredMissing b")
  case True
  then have "sequenceValue m (counters (snd (createStudent b w)))
             = (numInc ^^ 0) (sequenceValue m (counters w))"
    by (simp add: createStudent_def)
  then show ?thesis by blast
next
  case False
  then have "counters (snd (createStudent b w)) = counters (snd (createLoop 0 b w))"
    by (cases "createLoop 0 b w") (auto simp: createStudent_def split: sum.splits)
  then show ?thesis using createLoop_steps[of m 0 b w] by simp
qed

lemma updateStudent_counters:
  "counters (snd (updateStudent key b w)) = counters w"
  by (simp add: updateStudent_def await_eq split: prod.splits sum.splits option.splits)

lemma deleteStudent_counters:
  "counters (snd (deleteStudent key w)) =
     (if statusCode (fst (deleteStudent key w)) = 200 \<and> students (snd (deleteStudent key w)) = []
      then resetCounter (counters w) else counters w)"
  by (simp add: deleteStudent_def await_eq Let_def split: prod.splits option.splits)

lemma deleteStudent_students:
  "statusCode (fst (deleteStudent key w)) = 200 \<Longrightarrow>
     students (snd (deleteStudent key w)) = snd (deleteFirst (\<lambda>s. oid s = key) (students w))
     \<and> fst (deleteFirst (\<lambda>s. oid s = key) (students w)) \<noteq> None"
  by (auto simp: deleteStudent_def await_eq Let_def split: prod.splits option.splits if_splits)

lemma exec_steps:
  assumes "\<not> resets r w"
  shows "\<exists>k. sequenceValue m (counters (exec r w)) = (numInc ^^ k) (sequenceValue m (counters w))"
proof (cases r)
  case (NextId n)
  then show ?thesis using getNext_steps[of m n w] by simp
next
  case (Create b)
  then show ?thesis using createStudent_steps[of m b w] by simp
next
  case (Update key b)
  then have "sequenceValue m (counters (exec r w)) = (numInc ^^ 0) (sequenceValue m (counters w))"
    by (simp add: updateStudent_counters)
  then show ?thesis by blast
next
  case (Delete key)
  then have "sequenceValue m (counters (exec r w)) = (numInc ^^ 0) (sequenceValue m (counters w))"
    using assms by (auto simp: deleteStudent_counters)
  then show ?thesis by blast
qed

lemma run_steps:
  "noReset rs w \<Longrightarrow>
     \<exists>k. sequenceValue m (counters (run rs w)) = (numInc ^^ k) (sequenceValue m (counters w))"
proof (induction rs arbitrary: w)
  case Nil
  have "sequenceValue m (counters (run [] w)) = (numInc ^^ 0) (sequenceValue m (counters w))" by simp
  then show ?case by blast
next
  case (Cons r rs)
  then have nr: "\<not> resets r w" "noReset rs (exec r w)" by simp_all
  obtain j where j: "sequenceValue m (counters (exec r w)) = (numInc ^^ j) (sequenceValue m (counters w))"
    using exec_steps[OF nr(1)] by blast
  obtain k where k: "sequenceValue m (counters (run rs (exec r w)))
                     = (numInc ^^ k) (sequenceValue m (counters (exec r w)))"
    using Cons.IH[OF nr(2)] by blast
  have "sequenceValue m (counters (run (r # rs) w)) = (numInc ^^ (k + j)) (sequenceValue m (counters w))"
    using j k by (simp add: funpow_add)
  then show ?case by blast
qed

text \<open>
  Claim C3, as amended. The claim has every two successive allocations strictly
  increasing; the counter is a Number, and from \<open>2 ^ 53\<close> on the increment by one is
  lost in rounding, so the same value is returned again. What holds: for every sequence
  name, two successful calls of \<open>getNextSequenceValue\<close> whose results are safe integers
  (magnitude below \<open>2 ^ 53\<close>) return strictly increasing values, whatever requests run
  one after another in between (other allocations, creates, updates, deletes, failing
  or not), as long as none of them is a delete that resets the counter; with no request
  in between the second value is the first plus one.
\<close>

theorem nextId_increasing_while_safe:
  assumes "getNextSequenceValue n w = (Inr a, w1)" "noReset rs w1"
    "getNextSequenceValue n (run rs w1) = (Inr b, w2)"
    "safeInteger a" "safeInteger b"
  shows "a < b \<and> (rs = [] \<longrightarrow> b = a + 1)"
proof -
  have a: "sequenceValue n (counters w1) = a" using getNext_Inr(2)[OF assms(1)] .
  obtain k where k: "sequenceValue n (counters (run rs w1)) = (numInc ^^ k) a"
    using run_steps[OF assms(2), of n] a by auto
  have b: "b = (numInc ^^ (Suc k)) a" using getNext_Inr(1)[OF assms(3)] k by simp
  have lo: "- (2 ^ 53) \<le> a" and hi: "b < 2 ^ 53" using assms(4,5) by (auto simp: safeInteger_def)
  have "(numInc ^^ (Suc k)) a = a + int (Suc k)"
    using numInc_funpow_below[OF lo, of "Suc k"] hi b by simp
  then have lt: "a < b" using b by simp
  have "b = a + 1" if "rs = []"
  proof -
    have "b = numInc a" using that a getNext_Inr(1)[OF assms(3)] by simp
    moreover have "a < 2 ^ 53" using lt hi by simp
    ultimately show ?thesis using numInc_exact[OF lo] by simp
  qed
  then show ?thesis using lt by simp
qed

theorem nextId_increasing_while_safe_witness:
  "getNextSequenceValue ''studentId'' emptyWorld = (Inr 1, snd (getNextSequenceValue ''studentId'' emptyWorld))
   \<and> noReset mixedRun (snd (getNextSequenceValue ''studentId'' emptyWorld))
   \<and> fst (getNextSequenceValue ''studentId''
           (run mixedRun (snd (getNextSequenceValue ''studentId'' emptyWorld)))) = Inr 4
   \<and> safeInteger 1 \<and> safeInteger 4 \<and> (1 :: int) < 4
   \<and> fst (getNextSequenceValue ''studentId'' (snd (getNextSequenceValue ''studentId'' emptyWorld))) = Inr 2"
proof -
  let ?w1 = "snd (getNextSequenceValue ''studentId'' emptyWorld)"
  let ?w2 = "snd (getNextSequenceValue ''studentId'' (run mixedRun ?w1))"
  have h1: "getNextSequenceValue ''studentId'' emptyWorld = (Inr 1, ?w1)" by code_simp
  have h2: "noReset mixedRun ?w1" by code_simp
  have h3: "getNextSequenceValue ''studentId'' (run mixedRun ?w1) = (Inr 4, ?w2)" by code_simp
  have h4: "fst (getNextSequenceValue ''studentId'' (run mixedRun ?w1)) = Inr 4" by code_simp
  have h5: "fst (getNextSequenceValue ''studentId'' ?w1) = Inr 2" by code_simp
  have s: "safeInteger 1" "safeInteger 2" "safeInteger 4" by (simp_all add: safeInteger_def)
  have k2: "noReset [] ?w1" by simp
  have k3: "getNextSequenceValue ''studentId'' (run [] ?w1)
            = (Inr 2, snd (getNextSequenceValue ''studentId'' (run [] ?w1)))" by code_simp
  have k: "(2 :: int) = 1 + 1" using nextId_increasing_while_safe[OF h1 k2 k3 s(1) s(2)] by blast
  show ?thesis using h1 h2 h4 h5 k s nextId_increasing_while_safe[OF h1 h2 h3 s(1) s(3)] by blast
qed

text \<open>
  The claim C3 as stated fails: with the counter at \<open>2 ^ 53 - 1\<close>, two successive
  successful allocations, with nothing in between, both return 9007199254740992.
\<close>

theorem nextId_repeats_at_limit:
  "fst (getNextSequenceValue ''studentId'' nearLimit) = Inr 9007199254740992
   \<and> fst (getNextSequenceValue ''studentId'' (snd (getNextSequenceValue ''studentId'' nearLimit)))
       = Inr 9007199254740992
   \<and> noReset [] (snd (getNextSequenceValue ''studentId'' nearLimit))
   \<and> \<not> (9007199254740992 :: int) < 9007199254740992"
  by code_simp

text \<open>
  Claim C4. After the reset of the \<open>studentId\<close> counter to 0 the next allocation returns
  1; on a sequence that has no counter document yet the first two allocations return 1
  and then 2; and after a delete that emptied the collection (and so reset the counter)
  the next allocation returns 1. In each part the store calls of the allocations
  proceed.
\<close>

theorem reset_baseline:
  "(proceeds 2 w \<longrightarrow>
      fst (getNextSequenceValue ''studentId'' (w\<lparr>counters := resetCounter (counters w)\<rparr>)) = Inr 1)
   \<and> (find (\<lambda>c. counter_id c = n) (counters u) = None \<and> proceeds 4 u \<longrightarrow>
        fst (getNextSequenceValue n u) = Inr 1
        \<and> fst (getNextSequenceValue n (snd (getNextSequenceValue n u))) = Inr 2)
   \<and> (deleteStudent key v = (r, v') \<and> statusCode r = 200 \<and> students v' = [] \<and> proceeds 2 v' \<longrightarrow>
        fst (getNextSequenceValue ''studentId'' v') = Inr 1)"
proof (intro conjI impI)
  assume "proceeds 2 w"
  then have "proceeds 2 (w\<lparr>counters := resetCounter (counters w)\<rparr>)" by (simp add: proceeds_def)
  from getNext_ok[OF this] show "fst (getNextSequenceValue ''studentId'' (w\<lparr>counters := resetCounter (counters w)\<rparr>)) = Inr 1"
    by (simp add: sequenceValue_reset numInc_0)
next
  assume a: "find (\<lambda>c. counter_id c = n) (counters u) = None \<and> proceeds 4 u"
  then have s0: "sequenceValue n (counters u) = 0"
    by (simp add: sequenceValue_def INITIAL_ID_VALUE_def)
  have p: "proceeds 2 u" "proceeds 2 (u\<lparr>counters := bump n (counters u), faults := tl (tl (faults u))\<rparr>)"
    using a proceeds_after by blast+
  show "fst (getNextSequenceValue n u) = Inr 1" using getNext_ok[OF p(1)] s0 by (simp add: numInc_0)
  show "fst (getNextSequenceValue n (snd (getNextSequenceValue n u))) = Inr 2"
    using getNext_ok[OF p(1), of n] getNext_ok[OF p(2), of n] s0
    by (simp add: sequenceValue_bump numInc_0 numInc_1)
next
  assume a: "deleteStudent key v = (r, v') \<and> statusCode r = 200 \<and> students v' = [] \<and> proceeds 2 v'"
  then have "counters v' = resetCounter (counters v)"
    using deleteStudent_counters[of key v] by simp
  then show "fst (getNextSequenceValue ''studentId'' v') = Inr 1"
    using a getNext_ok[of v' "''studentId''"] by (simp add: sequenceValue_reset numInc_0)
qed

theorem reset_baseline_witness:
  "fst (getNextSequenceValue ''studentId''
         (emptyWorld\<lparr>counters := resetCounter [\<lparr>counter_id = ''studentId'', sequence_value = 7\<rparr>]\<rparr>)) = Inr 1
   \<and> fst (getNextSequenceValue ''studentId'' emptyWorld) = Inr 1
   \<and> fst (getNextSequenceValue ''studentId'' (snd (getNextSequenceValue ''studentId'' emptyWorld))) = Inr 2
   \<and> fst (getNextSequenceValue ''studentId'' (run [Delete 0, Delete 1] twoStudents)) = Inr 1"
proof -
  let ?w = "emptyWorld\<lparr>counters := [\<lparr>counter_id = ''studentId'', sequence_value = 7\<rparr>]\<rparr>"
  let ?v = "run [Delete 0] twoStudents"
  have h1: "proceeds 2 ?w" by code_simp
  have h2: "find (\<lambda>c. counter_id c = ''studentId'') (counters emptyWorld) = None \<and> proceeds 4 emptyWorld"
    by code_simp
  have h3: "deleteStudent 1 ?v = (fst (deleteStudent 1 ?v), snd (deleteStudent 1 ?v))
            \<and> statusCode (fst (deleteStudent 1 ?v)) = 200 \<and> students (snd (deleteStudent 1 ?v)) = []
            \<and> proceeds 2 (snd (deleteStudent 1 ?v))"
    by code_simp
  have c: "counters ?w = [\<lparr>counter_id = ''studentId'', sequence_value = 7\<rparr>]" by code_simp
  show ?thesis
    using reset_baseline[of ?w "''studentId''" emptyWorld 1 ?v "fst (deleteStudent 1 ?v)" "snd (deleteStudent 1 ?v)"]
      h1 h2 h3 c by simp
qed

text \<open>
  Claim C5. When the first \<open>k < 5\<close> saves fail with a duplicate-key error on \<open>studentId\<close>
  and the next attempt's store calls proceed, the request answers 201 with the student
  that was saved: it is the one document added to the collection, and its identifier is
  the value of the counter before the request incremented \<open>k + 1\<close> times, which is that
  value plus \<open>k + 1\<close> as long as the sum does not exceed \<open>2 ^ 53\<close>.
\<close>

theorem create_retry_transparent:
  assumes "\<not> requiredMissing b" "stringFields b"
    "length es < MAX_RETRIES" "\<forall>e\<in>set es. idCollision e"
    "faults w = failedSaves es @ fs" "list_all (\<lambda>f. f = None) (take 3 fs)"
  shows "\<exists>st. fst (createStudent b w) = \<lparr>statusCode = 201, json = StudentBody st\<rparr>
          \<and> students (snd (createStudent b w)) = students w @ [st]
          \<and> studentId st = (numInc ^^ (length es + 1)) (sequenceValue ''studentId'' (counters w))
          \<and> (- (2 ^ 53) \<le> sequenceValue ''studentId'' (counters w)
               \<and> sequenceValue ''studentId'' (counters w) + int (length es) + 1 \<le> 2 ^ 53
              \<longrightarrow> studentId st = sequenceValue ''studentId'' (counters w) + int (length es) + 1)"
proof -
  let ?v = "sequenceValue ''studentId'' (counters w)"
  have l: "0 + length es < MAX_RETRIES" using assms(3) by simp
  obtain w1 where w1: "createLoop 0 b w = createLoop (0 + length es) b w1"
    "students w1 = students w" "faults w1 = fs"
    "sequenceValue ''studentId'' (counters w1) = (numInc ^^ length es) ?v"
    using createLoop_retries[OF assms(2) _ l assms(5)] assms(4) idCollision_retried by blast
  have "proceeds 3 w1" using assms(6) w1(3) by (simp add: proceeds_def)
  then obtain st w2 where w2: "tryCreate b w1 = (Inr st, w2)" "students w2 = students w1 @ [st]"
    "studentId st = numInc (sequenceValue ''studentId'' (counters w1))"
    using tryCreate_saved[OF assms(2)] by blast
  have "createLoop (length es) b w1 = (Inr \<lparr>statusCode = 201, json = StudentBody st\<rparr>, w2)"
    using w2(1) assms(3) by (subst createLoop.simps) simp
  then have c: "createLoop 0 b w = (Inr \<lparr>statusCode = 201, json = StudentBody st\<rparr>, w2)"
    using w1(1) by simp
  have id: "studentId st = (numInc ^^ (length es + 1)) ?v" using w2(3) w1(4) by simp
  have safe: "studentId st = ?v + int (length es) + 1"
    if "- (2 ^ 53) \<le> ?v \<and> ?v + int (length es) + 1 \<le> 2 ^ 53"
  proof -
    have "(numInc ^^ (length es + 1)) ?v = ?v + int (length es + 1)"
      using that by (intro numInc_funpow_safe) simp_all
    then show ?thesis using id by simp
  qed
  have res: "createStudent b w = (\<lparr>statusCode = 201, json = StudentBody st\<rparr>, w2)"
    using assms(1) c by (simp add: createStudent_def)
  have "fst (createStudent b w) = \<lparr>statusCode = 201, json = StudentBody st\<rparr>
        \<and> students (snd (createStudent b w)) = students w @ [st]"
    unfolding res using w2(2) w1(2) by simp
  then show ?thesis using id safe by blast
qed

theorem create_retry_transparent_witness:
  "statusCode (fst (createStudent annBody (collidingWorld 2 []))) = 201
   \<and> json (fst (createStudent annBody (collidingWorld 2 [])))
       = StudentBody (last (students (snd (createStudent annBody (collidingWorld 2 [])))))
   \<and> map studentId (students (snd (createStudent annBody (collidingWorld 2 [])))) = [3]
   \<and> (numInc ^^ (length (replicate 2 idConflict) + 1)) 0 = 3"
proof -
  let ?w = "collidingWorld 2 []"
  have h1: "\<not> requiredMissing annBody" by code_simp
  have h2: "stringFields annBody" by code_simp
  have h3: "length (replicate 2 idConflict) < MAX_RETRIES" by code_simp
  have h4: "\<forall>e\<in>set (replicate 2 idConflict). idCollision e" by code_simp
  have h5: "faults ?w = failedSaves (replicate 2 idConflict) @ []" by code_simp
  have h6: "list_all (\<lambda>f. f = None) (take 3 ([] :: error option list))" by simp
  have s: "students ?w = []" "sequenceValue ''studentId'' (counters ?w) = 0" by code_simp+
  have r: "- (2 ^ 53) \<le> sequenceValue ''studentId'' (counters ?w)
           \<and> sequenceValue ''studentId'' (counters ?w) + int (length (replicate 2 idConflict)) + 1 \<le> 2 ^ 53"
    unfolding s by simp
  from create_retry_transparent[OF h1 h2 h3 h4 h5 h6] r obtain st where
    st: "fst (createStudent annBody ?w) = \<lparr>statusCode = 201, json = StudentBody st\<rparr>"
      "students (snd (createStudent annBody ?w)) = students ?w @ [st]"
      "studentId st = (numInc ^^ (length (replicate 2 idConflict) + 1)) (sequenceValue ''studentId'' (counters ?w))"
      "studentId st = sequenceValue ''studentId'' (counters ?w) + int (length (replicate 2 idConflict)) + 1"
    by blast
  have "studentId st = 3" using st(4) s(2) by simp
  then show ?thesis using st s by simp
qed

text \<open>
  Claim C6. A delete that answers with success removed the first student with the given
  storage key. If no student is left, the \<open>studentId\<close> counter was reset: its document,
  if there is one, holds 0, and the value of the sequence is the baseline 0. If a student
  is left, the counter collection is unchanged.
\<close>

theorem delete_reclaims_counter:
  assumes "deleteStudent key w = (r, w')" "statusCode r = 200"
  shows "students w' = snd (deleteFirst (\<lambda>s. oid s = key) (students w))
         \<and> (students w' = [] \<longrightarrow>
               counters w' = resetCounter (counters w)
               \<and> sequenceValue ''studentId'' (counters w') = 0)
         \<and> (students w' \<noteq> [] \<longrightarrow> counters w' = counters w)"
  using assms deleteStudent_counters[of key w] deleteStudent_students[of key w]
  by (auto simp: sequenceValue_reset)

theorem delete_reclaims_counter_witness:
  "sequenceValue ''studentId'' (counters (run [Delete 0] twoStudents)) = 2
   \<and> students (snd (deleteStudent 1 (run [Delete 0] twoStudents))) = []
   \<and> sequenceValue ''studentId'' (counters (snd (deleteStudent 1 (run [Delete 0] twoStudents)))) = 0
   \<and> students (snd (deleteStudent 0 twoStudents)) \<noteq> []
   \<and> counters (snd (deleteStudent 0 twoStudents)) = counters twoStudents"
proof -
  let ?v = "run [Delete 0] twoStudents"
  have h1: "deleteStudent 1 ?v = (fst (deleteStudent 1 ?v), snd (deleteStudent 1 ?v))" by simp
  have h2: "statusCode (fst (deleteStudent 1 ?v)) = 200" by code_simp
  have h3: "students (snd (deleteStudent 1 ?v)) = []" by code_simp
  have g1: "deleteStudent 0 twoStudents = (fst (deleteStudent 0 twoStudents), snd (deleteStudent 0 twoStudents))"
    by simp
  have g2: "statusCode (fst (deleteStudent 0 twoStudents)) = 200" by code_simp
  have g3: "students (snd (deleteStudent 0 twoStudents)) \<noteq> []" by code_simp
  have c: "sequenceValue ''studentId'' (counters ?v) = 2" by code_simp
  have a: "sequenceValue ''studentId'' (counters (snd (deleteStudent 1 ?v))) = 0"
    using delete_reclaims_counter[OF h1 h2] h3 by blast
  have b: "counters (snd (deleteStudent 0 twoStudents)) = counters twoStudents"
    using delete_reclaims_counter[OF g1 g2] g3 by blast
  show ?thesis using a b c h3 g3 by blast
qed





text \<open>
  Claim C8. A delete whose storage key matches no student changes neither the student
  collection nor the counters, and when the store call proceeds it answers 404 with
  \<open>Student not found\<close>.
\<close>

theorem delete_not_found:
  assumes "\<forall>s\<in>set (students w). oid s \<noteq> key"
  shows "students (snd (deleteStudent key w)) = students w
         \<and> counters (snd (deleteStudent key w)) = counters w
         \<and> (proceeds 1 w \<longrightarrow>
              fst (deleteStudent key w) = \<lparr>statusCode = 404, json = ErrorBody ''Student not found''\<rparr>)"
proof -
  have d: "deleteFirst (\<lambda>s. oid s = key) (students w) = (None, students w)"
    using assms by (intro deleteFirst_none) simp
  have p: "proceeds 1 w \<Longrightarrow> nextFault (faults w) = None"
    using proceeds_Suc[of 0 w] by simp
  show ?thesis using d p
    by (auto simp: deleteStudent_def await_eq split: option.splits)
qed

theorem delete_not_found_witness:
  "students (snd (deleteStudent 5 twoStudents)) = students twoStudents
   \<and> counters (snd (deleteStudent 5 twoStudents)) = counters twoStudents
   \<and> fst (deleteStudent 5 twoStudents) = \<lparr>statusCode = 404, json = ErrorBody ''Student not found''\<rparr>"
proof -
  have h1: "\<forall>s\<in>set (students twoStudents). oid s \<noteq> 5" by code_simp
  have h2: "proceeds 1 twoStudents" by code_simp
  show ?thesis using delete_not_found[OF h1] h2 by blast
qed

lemma updateData_frame:
  "updateData b = Inr upd \<Longrightarrow> studentId (upd s) = studentId s \<and> oid (upd s) = oid s"
  by (auto simp: updateData_def split: sum.splits)

text \<open>
  Claim C9. An update that answers with success leaves the \<open>studentId\<close> (and the storage
  key) of every stored student as it was; the document it returns is the stored one of
  that key, with the \<open>studentId\<close> it had before. The update writes only name, email,
  course, enrolment date and status, whatever else the request body holds.
\<close>

theorem update_keeps_studentId:
  assumes "updateStudent key b w = (r, w')" "statusCode r = 200"
  shows "map studentId (students w') = map studentId (students w)
         \<and> map oid (students w') = map oid (students w)
         \<and> (\<exists>old st. find (\<lambda>s. oid s = key) (students w) = Some old
                \<and> json r = StudentBody st
                \<and> find (\<lambda>s. oid s = key) (students w') = Some st
                \<and> studentId st = studentId old)"
proof -
  have nm: "\<not> requiredMissing b"
    using assms by (cases "requiredMissing b") (auto simp: updateStudent_def)
  obtain upd where upd: "updateData b = Inr upd"
    using assms nm by (cases "updateData b") (auto simp: updateStudent_def)
  have nf: "nextFault (faults w) = None"
    using assms nm upd by (cases "nextFault (faults w)") (auto simp: updateStudent_def await_eq)
  let ?p = "\<lambda>s. oid s = key"
  have fr: "\<And>s. studentId (upd s) = studentId s" "\<And>s. oid (upd s) = oid s"
    using updateData_frame[OF upd] by auto
  obtain u ss where u: "updateFirst ?p upd (students w) = (u, ss)"
    by (cases "updateFirst ?p upd (students w)")
  obtain st where st: "u = Some st" "r = \<lparr>statusCode = 200, json = StudentBody st\<rparr>"
    "students w' = ss"
    using assms upd nf nm u by (cases u) (auto simp: updateStudent_def await_eq)
  have u1: "map_option upd (find ?p (students w)) = Some st"
    using fst_updateFirst[of ?p upd "students w"] u st(1) by simp
  then obtain old where old: "find ?p (students w) = Some old" "st = upd old" by auto
  have u2: "find ?p ss = Some st"
    using find_updateFirst_same[of ?p upd "students w"] u u1 fr(2) by simp
  have m: "map studentId ss = map studentId (students w)" "map oid ss = map oid (students w)"
    using map_updateFirst[of studentId upd ?p "students w"] map_updateFirst[of oid upd ?p "students w"] fr u
    by auto
  show ?thesis using st old u2 m fr by simp
qed

theorem update_keeps_studentId_witness:
  "statusCode (fst (updateStudent 0 bobBody twoStudents)) = 200
   \<and> map studentId (students twoStudents) = [1, 2]
   \<and> map name (students (snd (updateStudent 0 bobBody twoStudents))) = [''Bob'', ''Ann'']
   \<and> map studentId (students (snd (updateStudent 0 bobBody twoStudents))) = map studentId (students twoStudents)"
proof -
  let ?r = "updateStudent 0 bobBody twoStudents"
  have h1: "?r = (fst ?r, snd ?r)" by simp
  have h2: "statusCode (fst ?r) = 200" by code_simp
  have c1: "map studentId (students twoStudents) = [1, 2]" by code_simp
  have c2: "map name (students (snd ?r)) = [''Bob'', ''Ann'']" by code_simp
  show ?thesis using update_keeps_studentId[OF h1 h2] h2 c1 c2 by blast
qed

section \<open>The success rate\<close>

lemma Math_round_bounds:
  assumes "0 \<le> x" "x \<le> 100"
  shows "0 \<le> Math_round x \<and> Math_round x \<le> 100"
proof -
  have "0 \<le> x + 1 / 2" using assms(1) by simp
  then have a: "0 \<le> \<lfloor>x + 1 / 2\<rfloor>" by (simp only: zero_le_floor)
  have "x + 1 / 2 < of_int 100 + 1" using assms(2) by simp
  then have b: "\<lfloor>x + 1 / 2\<rfloor> \<le> 100" by (simp only: floor_le_iff)
  show ?thesis using a b by (simp add: Math_round_def)
qed

lemma ratio_bounds:
  assumes "0 < t" "g \<le> t"
  shows "0 \<le> (of_nat g / of_nat t :: rat) \<and> (of_nat g / of_nat t :: rat) \<le> 1"
proof -
  have "(of_nat g :: rat) \<le> of_nat t" using assms(2) by simp
  moreover have "0 < (of_nat t :: rat)" using assms(1) by simp
  ultimately show ?thesis by (simp add: divide_le_eq_1_pos del: of_nat_le_iff of_nat_0_less_iff)
qed

lemma getStats_proceeds:
  assumes "proceeds 3 w"
  shows "fst (getStats fl w) =
           \<lparr>statusCode = 200,
            json = StatsBody (length (students w))
                     (length (filter (\<lambda>c. courseStatus c = ''Active'') (courses w)))
                     (length (filter (\<lambda>s. status s = JStr ''Inactive'') (students w)))
                     (successRate fl (length (students w))
                        (length (filter (\<lambda>s. status s = JStr ''Inactive'') (students w))))\<rparr>"
proof -
  have p3: "proceeds (Suc (Suc (Suc 0))) w" using assms by (simp add: numeral_3_eq_3)
  have n1: "nextFault (faults w) = None" and p2: "proceeds (Suc (Suc 0)) (w\<lparr>faults := tl (faults w)\<rparr>)"
    using proceeds_Suc[OF p3] by auto
  have n2: "nextFault (tl (faults w)) = None"
    and p1: "proceeds (Suc 0) (w\<lparr>faults := tl (tl (faults w))\<rparr>)"
    using proceeds_Suc[OF p2] by auto
  have n3: "nextFault (tl (tl (faults w))) = None"
    using proceeds_Suc[OF p1] by auto
  show ?thesis using n1 n2 n3 by (simp add: getStats_def await_eq Let_def)
qed

text \<open>
  Claim C10. The success rate is defined for all counts: with no student it is 0 (the
  division is not evaluated), and with \<open>0 < totalStudents\<close> and
  \<open>graduates \<le> totalStudents\<close> it is the rounded percentage and lies between 0 and
  100. This holds for every rounding \<open>fl\<close> to floating-point numbers that is monotone
  and leaves 0, 1 and 100 as they are, as rounding to nearest does.
\<close>

theorem successRate_total:
  assumes "mono fl" "fl 0 = 0" "fl 1 = 1" "fl 100 = 100"
  shows "successRate fl 0 graduates = 0
         \<and> (0 < totalStudents \<and> graduates \<le> totalStudents \<longrightarrow>
               successRate fl totalStudents graduates
                 = Math_round (fl (fl (of_nat graduates / of_nat totalStudents) * 100))
               \<and> 0 \<le> successRate fl totalStudents graduates
               \<and> successRate fl totalStudents graduates \<le> 100)"
proof -
  have "0 \<le> Math_round (fl (fl (of_nat graduates / of_nat totalStudents) * 100))
        \<and> Math_round (fl (fl (of_nat graduates / of_nat totalStudents) * 100)) \<le> 100"
    if t: "0 < totalStudents" and g: "graduates \<le> totalStudents"
  proof -
    let ?q = "(of_nat graduates / of_nat totalStudents) :: rat"
    have q: "0 \<le> ?q" "?q \<le> 1" using ratio_bounds[OF t g] by blast+
    have "fl 0 \<le> fl ?q" "fl ?q \<le> fl 1" using assms(1) q by (blast dest: monoD)+
    then have f: "0 \<le> fl ?q * 100" "fl ?q * 100 \<le> 100" using assms(2,3) by simp_all
    have "fl 0 \<le> fl (fl ?q * 100)" "fl (fl ?q * 100) \<le> fl 100"
      using assms(1) f by (blast dest: monoD)+
    then have x: "0 \<le> fl (fl ?q * 100)" "fl (fl ?q * 100) \<le> 100" using assms(2,4) by simp_all
    show ?thesis using Math_round_bounds[OF x] .
  qed
  then show ?thesis by (simp add: successRate_def)
qed

theorem successRate_total_witness:
  "successRate (\<lambda>x. x) 0 0 = 0
   \<and> successRate (\<lambda>x. x) 8 1 = Math_round ((of_nat 1 / of_nat 8) * 100)
   \<and> 0 \<le> successRate (\<lambda>x. x) 8 1 \<and> successRate (\<lambda>x. x) 8 1 \<le> 100
   \<and> successRate (\<lambda>x. x) 8 1 = 13"
proof -
  have h1: "mono (\<lambda>x :: rat. x)" by (simp add: mono_def)
  have h2: "(\<lambda>x :: rat. x) 0 = 0" "(\<lambda>x :: rat. x) 1 = 1" "(\<lambda>x :: rat. x) 100 = 100" by simp_all
  have c: "successRate (\<lambda>x. x) 8 1 = 13" by code_simp
  show ?thesis
    using successRate_total[OF h1 h2, of 0 8] successRate_total[OF h1 h2, of 1 8] c by simp
qed

end
